theory Spec2Isabelle
  imports Main "HOL-Library.AList"
begin

section \<open>Go runtime: panics, indexing, slicing, range loops\<close>

text \<open>
  Go panics on an index or a slice expression out of range. Every such
  expression of the source is a branch of the model: a function that can panic
  returns \<open>panic + 'a\<close>, with \<open>Inl\<close> the panic.
\<close>

datatype panic = IndexOutOfRange | SliceBoundsOutOfRange

definition bindE :: "panic + 'a \<Rightarrow> ('a \<Rightarrow> panic + 'b) \<Rightarrow> panic + 'b" where
  "bindE m k = (case m of Inl e \<Rightarrow> Inl e | Inr v \<Rightarrow> k v)"

text \<open>\<open>xs[i]\<close>\<close>

definition at :: "'a list \<Rightarrow> int \<Rightarrow> panic + 'a" where
  "at xs i = (if 0 \<le> i \<and> i < int (length xs) then Inr (xs ! nat i) else Inl IndexOutOfRange)"

text \<open>\<open>s[lo:hi]\<close> on a string (a byte sequence)\<close>

definition slice :: "string \<Rightarrow> int \<Rightarrow> int \<Rightarrow> panic + string" where
  "slice s lo hi =
     (if 0 \<le> lo \<and> lo \<le> hi \<and> hi \<le> int (length s)
      then Inr (take (nat (hi - lo)) (drop (nat lo) s))
      else Inl SliceBoundsOutOfRange)"

text \<open>\<open>for _, x := range xs { body }\<close> over a state, stopping at the first panic\<close>

fun rangeE :: "('a \<Rightarrow> 's \<Rightarrow> panic + 's) \<Rightarrow> 'a list \<Rightarrow> 's \<Rightarrow> panic + 's" where
  "rangeE body [] s = Inr s"
| "rangeE body (x # xs) s =
     (case body x s of Inl e \<Rightarrow> Inl e | Inr s' \<Rightarrow> rangeE body xs s')"

text \<open>\<open>for idx, x := range xs\<close>: the elements with their indices\<close>

definition indexed :: "'a list \<Rightarrow> (int \<times> 'a) list" where
  "indexed xs = zip (map int [0..<length xs]) xs"

section \<open>Go standard library: package strings\<close>

fun hasPrefix :: "string \<Rightarrow> string \<Rightarrow> bool" where
  "hasPrefix s [] = True"
| "hasPrefix [] (p # ps) = False"
| "hasPrefix (c # cs) (p # ps) = (c = p \<and> hasPrefix cs ps)"




text \<open>
  \<open>strings.TrimSpace\<close> and \<open>strings.ToLower\<close>, on ASCII text: the white
  space characters are tab, line feed, vertical tab, form feed, carriage return
  and space.
\<close>

definition isSpace :: "char \<Rightarrow> bool" where
  "isSpace c = (c \<in> set [CHR 0x09, CHR 0x0A, CHR 0x0B, CHR 0x0C, CHR 0x0D, CHR 0x20])"

definition TrimSpace :: "string \<Rightarrow> string" where
  "TrimSpace s = rev (dropWhile isSpace (rev (dropWhile isSpace s)))"

definition toLowerChar :: "char \<Rightarrow> char" where
  "toLowerChar c =
     (case map_of (zip ''ABCDEFGHIJKLMNOPQRSTUVWXYZ'' ''abcdefghijklmnopqrstuvwxyz'') c of
        Some d \<Rightarrow> d
      | None \<Rightarrow> c)"

definition ToLower :: "string \<Rightarrow> string" where
  "ToLower s = map toLowerChar s"

text \<open>\<open>strings.Split(s, ".")[0]\<close>: what comes before the first dot.\<close>

definition splitFirst :: "string \<Rightarrow> string" where
  "splitFirst s = takeWhile (\<lambda>c. c \<noteq> CHR ''.'') s"

section \<open>The regular expression library\<close>

text \<open>
  \<open>matloob.io/regexp\<close> is an external library. A compiled expression is the
  record of the methods the checks call on it, each with \<open>n = -1\<close> (all
  matches). A \<open>nil\<close> result (no match) is the empty list; a result that is not
  \<open>nil\<close> has at least one match. \<open>regexp.Compile\<close> is a parameter
  \<open>compile\<close> of the loader, \<open>None\<close> when it returns an error.
\<close>

record regexp =
  MatchString :: "string \<Rightarrow> bool"
  FindAllStringIndex :: "string \<Rightarrow> int list list"
  FindAllStringSubmatch :: "string \<Rightarrow> string list list"
  FindAllStringSubmatchIndex :: "string \<Rightarrow> int list list"
  SubexpNames :: "string list"

section \<open>Package core\<close>

text \<open>
  \<open>core.Alert\<close>, with the fields the checks set. \<open>Link\<close>, \<open>Message\<close> and
  \<open>Description\<close> carry the suffix \<open>_a\<close>: the rule definition has fields of
  the same names.
\<close>

record Alert =
  Check :: string
  Severity :: string
  Span :: "int list"
  Link_a :: string
  Message_a :: string
  Description_a :: string
  Hide :: bool

text \<open>
  \<open>core.File\<close>, with the fields the dispatcher and the checks read or write.
  \<open>QueryComments\<close> is the method of that name (is the check switched off by
  an in-text comment), taken as it is.
\<close>

record File =
  NormedExt :: string
  RealExt :: string
  Checks :: "string \<rightharpoonup> bool"
  BaseStyles :: "string list"
  Sequences :: "string list"
  QueryComments :: "string \<Rightarrow> bool"

text \<open>
  The members of package \<open>core\<close> that the checks call and whose code is not
  part of the sources at hand, taken as parameters: \<open>core.FormatMessage\<close>,
  \<open>core.CheckPOS\<close>, the table \<open>core.LevelToInt\<close> and
  \<open>Selector.Contains\<close> (on the selectors' values).
\<close>

record core =
  FormatMessage :: "string \<Rightarrow> string list \<Rightarrow> string"
  CheckPOS :: "int list \<Rightarrow> string \<Rightarrow> string \<Rightarrow> bool"
  LevelToInt :: "string \<Rightarrow> int"
  Contains :: "string \<Rightarrow> string \<Rightarrow> bool"

text \<open>
  Modelled from the spec: \<open>core.StringInSlice\<close> is not in the sources at hand;
  the spec reads it as membership ("is not in the memory", "is one of the
  file's base styles").
\<close>

definition StringInSlice :: "string \<Rightarrow> string list \<Rightarrow> bool" where
  "StringInSlice a list = (a \<in> set list)"

text \<open>
  Modelled from the spec: \<open>core.AllStringsInSlice\<close> is not in the sources at
  hand; the spec reads it as "the sequence memory contains both alternatives".
\<close>

definition AllStringsInSlice :: "string list \<Rightarrow> string list \<Rightarrow> bool" where
  "AllStringsInSlice strings list = list_all (\<lambda>s. StringInSlice s list) strings"

text \<open>
  Modelled from the spec: \<open>core.HasAnyPrefix\<close> is not in the sources at hand;
  by its name and its use in \<open>lintFiles\<close>, does the text begin with one of the
  given prefixes.
\<close>

definition HasAnyPrefix :: "string \<Rightarrow> string list \<Rightarrow> bool" where
  "HasAnyPrefix name list = list_ex (\<lambda>s. hasPrefix name s) list"

section \<open>Package check: rule definitions\<close>

text \<open>
  \<open>Definition\<close> is embedded in the definition of every kind of rule; a record
  that extends it has its fields, as the Go struct has the promoted ones.
  Kind-specific fields that two kinds share carry a suffix.
\<close>

record Definition =
  Name :: string
  Level :: string
  Scope :: string
  Link :: string
  Message :: string
  Description :: string
  Extends :: string
  Code :: bool

record Occurrence = Definition +
  Max :: int
  Token :: string

record Repetition = Definition +
  Max_r :: int
  Ignorecase_r :: bool
  Tokens_r :: "string list"


record Consistency = Definition +
  Either :: "(string \<times> string) list"
  Ignorecase_c :: bool
  Nonword_c :: bool

record Conditional = Definition +
  First :: string
  Second :: string
  Exceptions :: "string list"

type_synonym ruleFn = "string \<Rightarrow> File \<Rightarrow> panic + (Alert list \<times> File)"

text \<open>\<open>check.Check\<close>: a compiled rule of the registry.\<close>

record Check =
  Rule :: ruleFn
  Extends_c :: string
  Code_c :: bool
  Level_c :: int
  Scope_c :: string

text \<open>
  \<open>Manager.AllChecks\<close> is a Go map from rule names to checks: an association
  list with one entry per name, in the order a \<open>range\<close> over it visits them.
\<close>

record Manager =
  AllChecks :: "(string \<times> Check) list"

subsection \<open>makeAlert\<close>

definition makeAlert :: "core \<Rightarrow> 'a Definition_scheme \<Rightarrow> int list \<Rightarrow> string \<Rightarrow> panic + Alert" where
  "makeAlert co chk loc txt =
     bindE (at loc 0) (\<lambda>lo.
     bindE (at loc 1) (\<lambda>hi.
     bindE (slice txt lo hi) (\<lambda>s.
       Inr \<lparr>Check = Name chk, Severity = Level chk, Span = loc, Link_a = Link chk,
            Message_a = FormatMessage co (Message chk) [s],
            Description_a = FormatMessage co (Description chk) [s], Hide = False\<rparr>)))"

subsection \<open>checkConditional\<close>

text \<open>The first loop: the first capture of every match of the consequent is stored.\<close>

definition conditionalStore :: "string list \<Rightarrow> string list \<Rightarrow> panic + string list" where
  "conditionalStore mat seqs =
     (if length mat > 1 then Inr (seqs @ [mat ! 1]) else Inr seqs)"

text \<open>The second loop: one antecedent.\<close>

definition conditionalAlert ::
  "core \<Rightarrow> string \<Rightarrow> 'a Conditional_scheme \<Rightarrow> string list \<Rightarrow> int list \<Rightarrow> Alert list
     \<Rightarrow> panic + Alert list" where
  "conditionalAlert co txt chk seqs loc alerts =
     bindE (at loc 0) (\<lambda>lo.
     bindE (at loc 1) (\<lambda>hi.
     bindE (slice txt lo hi) (\<lambda>s.
       if \<not> StringInSlice s seqs \<and> \<not> StringInSlice s (Exceptions chk)
       then bindE (makeAlert co chk loc txt) (\<lambda>a. Inr (alerts @ [a]))
       else Inr alerts)))"

definition checkConditional ::
  "core \<Rightarrow> string \<Rightarrow> 'a Conditional_scheme \<Rightarrow> File \<Rightarrow> regexp list
     \<Rightarrow> panic + (Alert list \<times> File)" where
  "checkConditional co txt chk f r =
     bindE (at r 0) (\<lambda>r0.
     bindE (rangeE conditionalStore (FindAllStringSubmatch r0 txt) (Sequences f)) (\<lambda>seqs.
     bindE (at r 1) (\<lambda>r1.
     bindE (rangeE (conditionalAlert co txt chk seqs) (FindAllStringIndex r1 txt) []) (\<lambda>alerts.
       Inr (alerts, f\<lparr>Sequences := seqs\<rparr>)))))"

subsection \<open>checkOccurrence\<close>

definition checkOccurrence ::
  "string \<Rightarrow> 'a Occurrence_scheme \<Rightarrow> File \<Rightarrow> regexp \<Rightarrow> int \<Rightarrow> panic + (Alert list \<times> File)" where
  "checkOccurrence txt chk f r lim =
     (let locs = FindAllStringIndex r txt;
          occurrences = int (length locs)
      in if occurrences > lim then
           bindE (at locs 0) (\<lambda>first.
           bindE (at first 0) (\<lambda>b.
           bindE (at locs (occurrences - 1)) (\<lambda>final.
           bindE (at final 1) (\<lambda>e.
             Inr ([\<lparr>Check = Name chk, Severity = Level chk, Span = [b, e],
                     Link_a = Link chk, Message_a = Message chk,
                     Description_a = Description chk, Hide = False\<rparr>], f)))))
         else Inr ([], f))"

subsection \<open>checkRepetition\<close>

text \<open>
  The state of the loop is \<open>(prev, ploc, count, alerts)\<close>; \<open>curr\<close> and
  \<open>hit\<close> are assigned in every iteration before they are read.
\<close>

definition repetitionStep ::
  "core \<Rightarrow> string \<Rightarrow> 'a Repetition_scheme \<Rightarrow> int list
     \<Rightarrow> string \<times> int list \<times> int \<times> Alert list
     \<Rightarrow> panic + (string \<times> int list \<times> int \<times> Alert list)" where
  "repetitionStep co txt chk loc st =
     (case st of (prev, ploc, count, alerts) \<Rightarrow>
       bindE (at loc 0) (\<lambda>lo.
       bindE (at loc 1) (\<lambda>hi.
       bindE (slice txt lo hi) (\<lambda>s.
         let curr = TrimSpace s;
             hit = (if Ignorecase_r chk then ToLower curr = ToLower prev \<and> curr \<noteq> []
                    else curr = prev \<and> curr \<noteq> []);
             count' = (if hit then count + 1 else count)
         in if hit \<and> count' > Max_r chk then
              bindE (at ploc 0) (\<lambda>p0.
                Inr (curr, loc, 0,
                     alerts @ [\<lparr>Check = Name chk, Severity = Level chk, Span = [p0, hi],
                                Link_a = Link chk,
                                Message_a = FormatMessage co (Message chk) [curr],
                                Description_a = FormatMessage co (Description chk) [curr],
                                Hide = False\<rparr>]))
            else Inr (curr, loc, count', alerts)))))"

definition checkRepetition ::
  "core \<Rightarrow> string \<Rightarrow> 'a Repetition_scheme \<Rightarrow> File \<Rightarrow> regexp
     \<Rightarrow> panic + (Alert list \<times> File)" where
  "checkRepetition co txt chk f r =
     bindE (rangeE (repetitionStep co txt chk) (FindAllStringIndex r txt) ([], [], 0, []))
       (\<lambda>st. case st of (prev, ploc, count, alerts) \<Rightarrow> Inr (alerts, f))"

subsection \<open>checkSubstitution\<close>



subsection \<open>checkConsistency\<close>

text \<open>The inner loop, over the indices of one submatch; its state is \<open>(loc, f.Sequences)\<close>.\<close>

definition consistencyStep ::
  "regexp \<Rightarrow> int list \<Rightarrow> int \<times> int \<Rightarrow> int list \<times> string list
     \<Rightarrow> panic + (int list \<times> string list)" where
  "consistencyStep r submat im st =
     (case (im, st) of ((idx, mat), (loc, seqs)) \<Rightarrow>
       if mat \<noteq> - 1 \<and> idx > 0 \<and> idx mod 2 = 0 then
         bindE (at submat (idx + 1)) (\<lambda>hi.
         bindE (at (SubexpNames r) (idx div 2)) (\<lambda>name.
           Inr ([mat, hi], seqs @ [name])))
       else Inr (loc, seqs))"

definition checkConsistency ::
  "core \<Rightarrow> string \<Rightarrow> 'a Consistency_scheme \<Rightarrow> File \<Rightarrow> regexp \<Rightarrow> string list
     \<Rightarrow> panic + (Alert list \<times> File)" where
  "checkConsistency co txt chk f r opts =
     (let matches = FindAllStringSubmatchIndex r txt in
      bindE (rangeE (\<lambda>submat. rangeE (consistencyStep r submat) (indexed submat))
               matches ([], Sequences f))
        (\<lambda>st. case st of (loc, seqs) \<Rightarrow>
          if matches \<noteq> [] \<and> AllStringsInSlice opts seqs then
            bindE (makeAlert co (chk\<lparr>Name := Extends chk\<rparr>) loc txt) (\<lambda>a.
              Inr ([a], f\<lparr>Sequences := seqs\<rparr>))
          else Inr ([], f\<lparr>Sequences := seqs\<rparr>)))"

subsection \<open>The registry\<close>

definition updateAllChecks :: "core \<Rightarrow> Manager \<Rightarrow> 'a Definition_scheme \<Rightarrow> ruleFn \<Rightarrow> Manager" where
  "updateAllChecks co mgr chkDef fn =
     mgr\<lparr>AllChecks :=
       AList.update (Name chkDef)
         \<lparr>Rule = fn, Extends_c = Extends chkDef, Code_c = Code chkDef,
          Level_c = LevelToInt co (Level chkDef), Scope_c = Scope chkDef\<rparr>
         (AllChecks mgr)\<rparr>"

text \<open>
  Modelled from the spec: \<open>core.CheckError\<close> is not in the sources at hand;
  by the spec a malformed regular expression "is reported but does not abort
  the loader; the offending rule is simply absent from the registry", so
  \<open>core.CheckError(err, ...)\<close> is true exactly when \<open>err\<close> is \<open>nil\<close>:
  the branch \<open>Some re\<close> of the result of \<open>compile\<close>.
\<close>

definition addOccurrenceCheck ::
  "core \<Rightarrow> (string \<Rightarrow> regexp option) \<Rightarrow> Manager \<Rightarrow> string \<Rightarrow> Occurrence \<Rightarrow> Manager" where
  "addOccurrenceCheck co compile mgr chkName chkDef =
     (case compile (Token chkDef) of
        Some re \<Rightarrow>
          if Max chkDef \<ge> 1 then
            updateAllChecks co mgr chkDef
              (\<lambda>text file. checkOccurrence text chkDef file re (Max chkDef))
          else mgr
      | None \<Rightarrow> mgr)"

subsection \<open>addSubstitutionCheck\<close>







section \<open>Package lint: the dispatcher\<close>

record Block =
  Context :: string
  Text :: string
  Raw :: string
  Scope_b :: string

record Config =
  MinAlertLevel :: int
  GChecks :: "string \<rightharpoonup> bool"

record Linter =
  Config :: Config
  CheckManager :: Manager

text \<open>The text a check is given (the first \<open>if\<close> of the loop of \<open>lintText\<close>).\<close>

definition lintText_txt :: "File \<Rightarrow> Block \<Rightarrow> Check \<Rightarrow> string" where
  "lintText_txt f blk chk =
     (let hasCode = StringInSlice (NormedExt f) [''.md'', ''.adoc'', ''.rst'']
      in if Code_c chk \<and> hasCode then Raw blk else Text blk)"

text \<open>
  The chain of \<open>continue\<close> statements of the loop: \<open>None\<close> is a
  \<open>continue\<close>, \<open>Some run\<close> goes on with the flag \<open>run\<close>.
\<close>

definition lintText_run :: "core \<Rightarrow> Linter \<Rightarrow> File \<Rightarrow> Block \<Rightarrow> string \<Rightarrow> Check \<Rightarrow> bool" where
  "lintText_run co l f blk name chk =
     (let min = MinAlertLevel (Config l);
          style = splitFirst name;
          txt = lintText_txt f blk chk
      in if QueryComments f name \<or> txt = [] then False
         else if Level_c chk < min \<or> \<not> Contains co (Scope_b blk) (Scope_c chk) then False
         else
           (case (case Checks f name of
                    Some val \<Rightarrow> if \<not> val then None else Some True
                  | None \<Rightarrow> Some False) of
              None \<Rightarrow> False
            | Some run \<Rightarrow>
                (case (case GChecks (Config l) name of
                         Some val \<Rightarrow> if \<not> run then (if \<not> val then None else Some True) else Some run
                       | None \<Rightarrow> Some run) of
                   None \<Rightarrow> False
                 | Some run' \<Rightarrow>
                     if \<not> run' \<and> \<not> StringInSlice style (BaseStyles f) then False else True)))"

text \<open>
  One iteration of the loop. The state is the file and the calls made so far:
  the name of the check, the text it was given and the alerts it returned,
  which \<open>f.AddAlert\<close> then assembles.
\<close>

definition lintText_body ::
  "core \<Rightarrow> Linter \<Rightarrow> Block \<Rightarrow> string \<times> Check \<Rightarrow> File \<times> (string \<times> string \<times> Alert list) list
     \<Rightarrow> panic + (File \<times> (string \<times> string \<times> Alert list) list)" where
  "lintText_body co l blk nc st =
     (case (nc, st) of ((name, chk), (f, calls)) \<Rightarrow>
        if lintText_run co l f blk name chk then
          bindE (Rule chk (lintText_txt f blk chk) f) (\<lambda>res. case res of (alerts, f') \<Rightarrow>
            Inr (f', calls @ [(name, lintText_txt f blk chk, alerts)]))
        else Inr (f, calls))"

definition lintText ::
  "core \<Rightarrow> Linter \<Rightarrow> File \<Rightarrow> Block
     \<Rightarrow> panic + (File \<times> (string \<times> string \<times> Alert list) list)" where
  "lintText co l f blk = rangeE (lintText_body co l blk) (AllChecks (CheckManager l)) (f, [])"

subsection \<open>lintFiles\<close>

text \<open>
  One step of \<open>filepath.Walk\<close>: the path and the file information given to
  the callback, and what the two \<open>select\<close> statements find: whether
  \<open>done\<close> is closed when the walker polls it, and whether the worker's send
  on \<open>filesChan\<close> is the case that runs.
\<close>

record WalkEntry =
  fp :: string
  fiName :: string
  fiIsDir :: bool
  walkErr :: bool
  doneClosed :: bool
  sends :: bool

text \<open>
  The walk with the callback of \<open>lintFiles\<close>: the entries a worker is
  spawned for, in order, and whether the walk ended with the error
  \<open>walk canceled\<close>. \<open>glob\<close> is \<open>glob.Match\<close>.
\<close>

fun walk :: "(string \<Rightarrow> bool) \<Rightarrow> WalkEntry list \<Rightarrow> WalkEntry list \<times> bool" where
  "walk glob [] = ([], False)"
| "walk glob (e # es) =
     (if walkErr e \<or> fiIsDir e then walk glob es
      else if \<not> glob (fp e) \<or> HasAnyPrefix (fiName e) [''.'', ''_''] then walk glob es
      else if doneClosed e then ([e], True)
      else (case walk glob es of (spawned, err) \<Rightarrow> (e # spawned, err)))"

text \<open>
  \<open>lintFiles\<close>: the paths whose file result reaches \<open>filesChan\<close> (one
  \<open>l.lintFile(fp)\<close> for each worker that sends), and the error of the walk.
\<close>

definition lintFiles :: "(string \<Rightarrow> bool) \<Rightarrow> WalkEntry list \<Rightarrow> string list \<times> bool" where
  "lintFiles glob entries =
     (case walk glob entries of (spawned, err) \<Rightarrow> (map fp (filter sends spawned), err))"

section \<open>Concrete expressions\<close>

text \<open>
  The matches of \<open>(?i)(\w+)\<close>, the expression \<open>addRepetitionCheck\<close>
  builds from the tokens \<open>[\w+]\<close> with \<open>ignorecase\<close>: the maximal runs
  of the characters \<open>[0-9A-Za-z_]\<close>, from left to right. \<open>wordRuns i start\<close>
  scans from offset \<open>i\<close>, \<open>start\<close> being where the current run began.
\<close>

definition isWordChar :: "char \<Rightarrow> bool" where
  "isWordChar c =
     (c \<in> set ''0123456789ABCDEFGHIJKLMNOPQRSTUVWXYZ_abcdefghijklmnopqrstuvwxyz'')"

fun wordRuns :: "int \<Rightarrow> int option \<Rightarrow> string \<Rightarrow> int list list" where
  "wordRuns i None [] = []"
| "wordRuns i (Some b) [] = [[b, i]]"
| "wordRuns i None (c # cs) =
     (if isWordChar c then wordRuns (i + 1) (Some i) cs else wordRuns (i + 1) None cs)"
| "wordRuns i (Some b) (c # cs) =
     (if isWordChar c then wordRuns (i + 1) (Some b) cs else [b, i] # wordRuns (i + 1) None cs)"

definition wordsRegexp :: regexp where
  "wordsRegexp =
     \<lparr>MatchString = (\<lambda>txt. wordRuns 0 None txt \<noteq> []),
      FindAllStringIndex = wordRuns 0 None,
      FindAllStringSubmatch =
        (\<lambda>txt. map (\<lambda>m. let s = take (nat (m ! 1 - m ! 0)) (drop (nat (m ! 0)) txt) in [s, s])
                 (wordRuns 0 None txt)),
      FindAllStringSubmatchIndex = (\<lambda>txt. map (\<lambda>m. m @ m) (wordRuns 0 None txt)),
      SubexpNames = [[], []]\<rparr>"

text \<open>
  The values the library returns for
  \<open>\b(?:(?P<Spelling2>color)|(?P<Spelling3>colour))\b\<close>, the expression
  \<open>addConsistencyCheck\<close> builds for the pair \<open>color\<close>, \<open>colour\<close> of a rule
  \<open>demo.Spelling\<close>, on the two blocks \<open>color\<close> and \<open>colour\<close>.
\<close>

definition spellingRegexp :: regexp where
  "spellingRegexp =
     \<lparr>MatchString = (\<lambda>txt. txt = ''color'' \<or> txt = ''colour''),
      FindAllStringIndex =
        (\<lambda>txt. if txt = ''color'' then [[0, 5]] else if txt = ''colour'' then [[0, 6]] else []),
      FindAllStringSubmatch =
        (\<lambda>txt. if txt = ''color'' then [[''color'', ''color'', []]]
               else if txt = ''colour'' then [[''colour'', [], ''colour'']] else []),
      FindAllStringSubmatchIndex =
        (\<lambda>txt. if txt = ''color'' then [[0, 5, 0, 5, - 1, - 1]]
               else if txt = ''colour'' then [[0, 6, - 1, - 1, 0, 6]] else []),
      SubexpNames = [[], ''Spelling2'', ''Spelling3'']\<rparr>"


text \<open>
  The values the library returns on the text
  \<open>The WHO met. Later, World Health Organization (WHO), the FAO and the IMF agreed.\<close>
  for the two expressions of a Conditional rule: the antecedent
  \<open>\b([A-Z]{3,5})\b\<close> and the consequent \<open>\b[A-Z][A-Za-z ]+ \(([A-Z]{3,5})\)\<close>.
\<close>

definition acronymText :: string where
  "acronymText = ''The WHO met. Later, World Health Organization (WHO), the FAO and the IMF agreed.''"

definition antecedentRegexp :: regexp where
  "antecedentRegexp =
     \<lparr>MatchString = (\<lambda>txt. txt = acronymText),
      FindAllStringIndex =
        (\<lambda>txt. if txt = acronymText then [[4, 7], [47, 50], [57, 60], [69, 72]] else []),
      FindAllStringSubmatch =
        (\<lambda>txt. if txt = acronymText
               then [[''WHO'', ''WHO''], [''WHO'', ''WHO''], [''FAO'', ''FAO''], [''IMF'', ''IMF'']]
               else []),
      FindAllStringSubmatchIndex =
        (\<lambda>txt. if txt = acronymText
               then [[4, 7, 4, 7], [47, 50, 47, 50], [57, 60, 57, 60], [69, 72, 69, 72]]
               else []),
      SubexpNames = [[], []]\<rparr>"

definition consequentRegexp :: regexp where
  "consequentRegexp =
     \<lparr>MatchString = (\<lambda>txt. txt = acronymText),
      FindAllStringIndex = (\<lambda>txt. if txt = acronymText then [[20, 51]] else []),
      FindAllStringSubmatch =
        (\<lambda>txt. if txt = acronymText
               then [[''World Health Organization (WHO)'', ''WHO'']] else []),
      FindAllStringSubmatchIndex =
        (\<lambda>txt. if txt = acronymText then [[20, 51, 47, 50]] else []),
      SubexpNames = [[], []]\<rparr>"

section \<open>Concrete rules, files and configurations\<close>

definition demoCore :: core where
  "demoCore =
     \<lparr>FormatMessage = (\<lambda>msg subs. msg),
      CheckPOS = (\<lambda>loc pos txt. False),
      LevelToInt = (\<lambda>level. if level = ''error'' then 2 else if level = ''warning'' then 1 else 0),
      Contains = (\<lambda>blockScope ruleScope. ruleScope = blockScope)\<rparr>"

definition demoFile :: File where
  "demoFile =
     \<lparr>NormedExt = ''.md'', RealExt = ''.md'', Checks = Map.empty, BaseStyles = [''demo''],
      Sequences = [], QueryComments = (\<lambda>name. False)\<rparr>"

definition demoOccurrence :: "int \<Rightarrow> Occurrence" where
  "demoOccurrence limit =
     \<lparr>Name = ''demo.Very'', Level = ''warning'', Scope = ''text.md'', Link = [],
      Message = ''found'', Description = [], Extends = ''occurrence'', Code = False,
      Max = limit, Token = [CHR 0x5C] @ ''w+''\<rparr>"

definition demoRepetition :: "int \<Rightarrow> Repetition" where
  "demoRepetition limit =
     \<lparr>Name = ''demo.Repetition'', Level = ''warning'', Scope = ''text.md'', Link = [],
      Message = ''found'', Description = [], Extends = ''repetition'', Code = False,
      Max_r = limit, Ignorecase_r = True, Tokens_r = [[CHR 0x5C] @ ''w+'']\<rparr>"


definition demoConsistency :: Consistency where
  "demoConsistency =
     \<lparr>Name = ''demo.Spelling.color'', Level = ''warning'', Scope = ''text.md'', Link = [],
      Message = ''found'', Description = [], Extends = ''demo.Spelling'', Code = False,
      Either = [(''color'', ''colour'')], Ignorecase_c = False, Nonword_c = False\<rparr>"

definition demoConditional :: Conditional where
  "demoConditional =
     \<lparr>Name = ''demo.Acronyms'', Level = ''warning'', Scope = ''text.md'', Link = [],
      Message = ''found'', Description = [], Extends = ''conditional'', Code = False,
      First = [CHR 0x5C] @ ''b([A-Z]{3,5})'' @ [CHR 0x5C] @ ''b'',
      Second = [CHR 0x5C] @ ''b[A-Z][A-Za-z ]+ '' @ [CHR 0x5C] @ ''(([A-Z]{3,5})'' @ [CHR 0x5C] @ '')'',
      Exceptions = [''FAO'']\<rparr>"

definition demoCheck :: Check where
  "demoCheck =
     \<lparr>Rule = (\<lambda>text file. Inr ([], file)), Extends_c = ''existence'', Code_c = True,
      Level_c = 1, Scope_c = ''text.md''\<rparr>"

definition demoBlock :: Block where
  "demoBlock = \<lparr>Context = ''some text'', Text = ''some text'', Raw = ''some `raw` text'',
     Scope_b = ''text.md''\<rparr>"

definition demoLinter :: "Manager \<Rightarrow> Linter" where
  "demoLinter mgr =
     \<lparr>Config = \<lparr>MinAlertLevel = 0, GChecks = Map.empty\<rparr>, CheckManager = mgr\<rparr>"

definition demoEntry :: "string \<Rightarrow> WalkEntry" where
  "demoEntry name =
     \<lparr>fp = ''docs/'' @ name, fiName = name, fiIsDir = False, walkErr = False,
      doneClosed = False, sends = True\<rparr>"

section \<open>The claims' vocabulary\<close>




text \<open>
  A location as the library returns it, two offsets into the text, and the text
  between them.
\<close>

definition inBounds :: "string \<Rightarrow> int list \<Rightarrow> bool" where
  "inBounds txt loc =
     (length loc = 2 \<and> 0 \<le> loc ! 0 \<and> loc ! 0 \<le> loc ! 1 \<and> loc ! 1 \<le> int (length txt))"

definition substr :: "string \<Rightarrow> int list \<Rightarrow> string" where
  "substr txt loc = take (nat (loc ! 1 - loc ! 0)) (drop (nat (loc ! 0)) txt)"

text \<open>
  The capturing groups of one submatch that took part in the match: the entry
  \<open>(idx, mat)\<close> of the submatch opens such a group when \<open>idx\<close> is even and
  positive and \<open>mat\<close> is not \<open>-1\<close>. Its location, and its name.
\<close>

definition groupLoc :: "int list \<Rightarrow> int \<times> int \<Rightarrow> int list list" where
  "groupLoc submat im =
     (case im of (idx, mat) \<Rightarrow>
        if mat \<noteq> - 1 \<and> idx > 0 \<and> idx mod 2 = 0 then [[mat, submat ! nat (idx + 1)]] else [])"

definition groupName :: "regexp \<Rightarrow> int \<times> int \<Rightarrow> string list" where
  "groupName r im =
     (case im of (idx, mat) \<Rightarrow>
        if mat \<noteq> - 1 \<and> idx > 0 \<and> idx mod 2 = 0 then [SubexpNames r ! nat (idx div 2)] else [])"

definition groupLocs :: "regexp \<Rightarrow> string \<Rightarrow> int list list" where
  "groupLocs r txt =
     concat (map (\<lambda>submat. concat (map (groupLoc submat) (indexed submat)))
       (FindAllStringSubmatchIndex r txt))"

definition groupNames :: "regexp \<Rightarrow> string \<Rightarrow> string list" where
  "groupNames r txt =
     concat (map (\<lambda>submat. concat (map (groupName r) (indexed submat)))
       (FindAllStringSubmatchIndex r txt))"




section \<open>Panics and range loops\<close>

lemma bindE_Inr: "bindE (Inr v) k = k v"
  by (simp add: bindE_def)

lemma bindE_eq_Inr: "bindE m k = Inr v \<longleftrightarrow> (\<exists>u. m = Inr u \<and> k u = Inr v)"
  by (cases m) (simp_all add: bindE_def)

lemma at_pair: "length loc = 2 \<Longrightarrow> at loc 0 = Inr (loc ! 0) \<and> at loc 1 = Inr (loc ! 1)"
  by (simp add: at_def)

lemma at_first: "xs \<noteq> [] \<Longrightarrow> at xs 0 = Inr (hd xs)"
  by (simp add: at_def hd_conv_nth)

lemma at_final: "xs \<noteq> [] \<Longrightarrow> at xs (int (length xs) - 1) = Inr (last xs)"
  by (simp add: at_def last_conv_nth nat_diff_distrib')

text \<open>A loop whose iterations only append to a part of the state.\<close>

lemma rangeE_collect:
  assumes "\<And>x s s'. x \<in> set xs \<Longrightarrow> body x s = Inr s' \<Longrightarrow> proj s' = proj s @ g x"
    and "rangeE body xs s = Inr s'"
  shows "proj s' = proj s @ concat (map g xs)"
  using assms
proof (induction xs arbitrary: s)
  case Nil
  then show ?case by simp
next
  case (Cons x xs)
  from Cons.prems(2) obtain s1 where s1: "body x s = Inr s1" and rest: "rangeE body xs s1 = Inr s'"
    by (auto split: sum.splits)
  have "proj s1 = proj s @ g x" using Cons.prems(1) s1 by simp
  moreover have "proj s' = proj s1 @ concat (map g xs)"
    using Cons.IH [OF _ rest] Cons.prems(1) by simp
  ultimately show ?case by simp
qed

text \<open>A loop whose iterations overwrite a part of the state or leave it.\<close>

lemma rangeE_last:
  assumes "\<And>x s s'. x \<in> set xs \<Longrightarrow> body x s = Inr s' \<Longrightarrow> sel s' = last (sel s # g x)"
    and "rangeE body xs s = Inr s'"
  shows "sel s' = last (sel s # concat (map g xs))"
  using assms
proof (induction xs arbitrary: s)
  case Nil
  then show ?case by simp
next
  case (Cons x xs)
  from Cons.prems(2) obtain s1 where s1: "body x s = Inr s1" and rest: "rangeE body xs s1 = Inr s'"
    by (auto split: sum.splits)
  have a: "sel s1 = last (sel s # g x)" using Cons.prems(1) s1 by simp
  have b: "sel s' = last (sel s1 # concat (map g xs))"
    using Cons.IH [OF _ rest] Cons.prems(1) by simp
  show ?case unfolding b a by (simp add: last_append)
qed

lemma rangeE_invariant:
  assumes "\<And>x s s'. x \<in> set xs \<Longrightarrow> P s \<Longrightarrow> body x s = Inr s' \<Longrightarrow> P s'"
    and "P s" and "rangeE body xs s = Inr s'"
  shows "P s'"
  using assms
proof (induction xs arbitrary: s)
  case Nil
  then show ?case by simp
next
  case (Cons x xs)
  from Cons.prems(3) obtain s1 where s1: "body x s = Inr s1" and rest: "rangeE body xs s1 = Inr s'"
    by (auto split: sum.splits)
  have P1: "P s1" using Cons.prems(1) [of x s s1] Cons.prems(2) s1 by simp
  show ?case
  proof (rule Cons.IH [OF _ P1 rest])
    fix y t t'
    assume "y \<in> set xs" "P t" "body y t = Inr t'"
    then show "P t'" using Cons.prems(1) [of y t t'] by simp
  qed
qed

text \<open>A loop that never panics and appends one value for the elements it keeps.\<close>

lemma rangeE_filter:
  assumes "\<And>x s. x \<in> set xs \<Longrightarrow> body x s = Inr (if keep x then s @ [mk x] else s)"
  shows "rangeE body xs s = Inr (s @ map mk (filter keep xs))"
  using assms by (induction xs arbitrary: s) simp_all

section \<open>Locations and alerts\<close>

lemma slice_inBounds: "inBounds txt loc \<Longrightarrow> slice txt (loc ! 0) (loc ! 1) = Inr (substr txt loc)"
  by (simp add: inBounds_def slice_def substr_def)

lemma makeAlert_inBounds:
  assumes "inBounds txt loc"
  shows "makeAlert co chk loc txt =
     Inr \<lparr>Check = Name chk, Severity = Level chk, Span = loc, Link_a = Link chk,
          Message_a = FormatMessage co (Message chk) [substr txt loc],
          Description_a = FormatMessage co (Description chk) [substr txt loc], Hide = False\<rparr>"
proof -
  from assms have l: "length loc = 2" by (simp add: inBounds_def)
  show ?thesis
    unfolding makeAlert_def at_pair [OF l, THEN conjunct1] at_pair [OF l, THEN conjunct2]
      slice_inBounds [OF assms] bindE_Inr ..
qed

lemma makeAlert_Span:
  "makeAlert co chk loc txt = Inr a \<Longrightarrow> Span a = loc \<and> loc \<noteq> [] \<and> Check a = Name chk"
  by (auto simp: makeAlert_def bindE_eq_Inr at_def split: if_splits)

section \<open>The dispatcher\<close>

lemma lintText_body_names:
  assumes "lintText_body co l blk nc st = Inr st'"
    and "fst ` set (snd st) \<subseteq> A" and "fst nc \<in> A"
  shows "fst ` set (snd st') \<subseteq> A"
  using assms
  by (cases nc; cases st)
     (fastforce simp: lintText_body_def bindE_eq_Inr split: if_splits)

lemma lintText_names:
  assumes "lintText co l f blk = Inr (f', calls)"
  shows "fst ` set calls \<subseteq> fst ` set (AllChecks (CheckManager l))"
proof -
  have "fst ` set (snd (f', calls)) \<subseteq> fst ` set (AllChecks (CheckManager l))"
  proof (rule rangeE_invariant
      [where P = "\<lambda>st. fst ` set (snd st) \<subseteq> fst ` set (AllChecks (CheckManager l))"
        and body = "lintText_body co l blk" and xs = "AllChecks (CheckManager l)"
        and s = "(f, [])"])
    fix x s s'
    assume "x \<in> set (AllChecks (CheckManager l))"
      and "fst ` set (snd s) \<subseteq> fst ` set (AllChecks (CheckManager l))"
      and "lintText_body co l blk x s = Inr s'"
    then show "fst ` set (snd s') \<subseteq> fst ` set (AllChecks (CheckManager l))"
      using lintText_body_names [of co l blk x s s'] by simp
  next
    show "fst ` set (snd (f, [])) \<subseteq> fst ` set (AllChecks (CheckManager l))" by simp
  next
    show "rangeE (lintText_body co l blk) (AllChecks (CheckManager l)) (f, []) = Inr (f', calls)"
      using assms by (simp add: lintText_def)
  qed
  then show ?thesis by simp
qed

section \<open>The walker\<close>

lemma walk_spawned:
  "e \<in> set (fst (walk glob entries)) \<Longrightarrow>
     e \<in> set entries \<and> \<not> walkErr e \<and> \<not> fiIsDir e \<and> glob (fp e) \<and>
     \<not> HasAnyPrefix (fiName e) [''.'', ''_'']"
  by (induction entries) (auto split: if_splits prod.splits)

lemma HasAnyPrefix_ignore:
  "HasAnyPrefix name [''.'', ''_''] \<longleftrightarrow> hasPrefix name ''.'' \<or> hasPrefix name ''_''"
  by (simp add: HasAnyPrefix_def)


section \<open>The claims\<close>

subsection \<open>C6: Occurrence\<close>

text \<open>
  C6. For an Occurrence rule with limit \<open>lim\<close> (a registered rule has
  \<open>lim \<ge> 1\<close>) and every text: when the number of matches of the token is at
  most \<open>lim\<close> no alert is emitted; when it exceeds \<open>lim\<close> exactly one alert
  is emitted, and its span runs from the start of the first match to the end of
  the last match. The matches are locations, pairs of offsets.
\<close>

theorem occurrence_one_alert_over_limit:
  assumes "0 \<le> lim" and "\<forall>loc \<in> set (FindAllStringIndex r txt). length loc = 2"
  shows "checkOccurrence txt chk f r lim =
     (let locs = FindAllStringIndex r txt in
      if int (length locs) \<le> lim then Inr ([], f)
      else Inr ([\<lparr>Check = Name chk, Severity = Level chk, Span = [hd locs ! 0, last locs ! 1],
                   Link_a = Link chk, Message_a = Message chk,
                   Description_a = Description chk, Hide = False\<rparr>], f))"
proof (cases "int (length (FindAllStringIndex r txt)) \<le> lim")
  case True
  then show ?thesis by (simp add: checkOccurrence_def Let_def)
next
  case False
  define locs where "locs = FindAllStringIndex r txt"
  from False assms(1) have ne: "locs \<noteq> []" by (auto simp: locs_def)
  then have "hd locs \<in> set locs" and "last locs \<in> set locs" by simp_all
  with assms(2) have lh: "length (hd locs) = 2" and ll: "length (last locs) = 2"
    by (auto simp: locs_def)
  show ?thesis using False
    by (simp add: checkOccurrence_def Let_def locs_def[symmetric] bindE_Inr
        at_first[OF ne] at_final[OF ne] at_pair[OF lh] at_pair[OF ll])
qed

text \<open>
  Four words against the limits 3 and 4: one alert from offset 0 to offset 18,
  and none.
\<close>

theorem occurrence_one_alert_over_limit_witness:
  "FindAllStringIndex wordsRegexp ''very very very big'' = [[0, 4], [5, 9], [10, 14], [15, 18]] \<and>
   checkOccurrence ''very very very big'' (demoOccurrence 3) demoFile wordsRegexp 3 =
     Inr ([\<lparr>Check = ''demo.Very'', Severity = ''warning'', Span = [0, 18], Link_a = [],
             Message_a = ''found'', Description_a = [], Hide = False\<rparr>], demoFile) \<and>
   checkOccurrence ''very very very big'' (demoOccurrence 4) demoFile wordsRegexp 4 =
     Inr ([], demoFile)"
proof -
  have locs: "FindAllStringIndex wordsRegexp ''very very very big'' =
      [[0, 4], [5, 9], [10, 14], [15, 18]]"
    by (simp add: wordsRegexp_def isWordChar_def)
  have pairs: "\<forall>loc \<in> set (FindAllStringIndex wordsRegexp ''very very very big''). length loc = 2"
    by (simp add: locs)
  have three: "(0::int) \<le> 3" and four: "(0::int) \<le> 4" by simp_all
  have over: "checkOccurrence ''very very very big'' (demoOccurrence 3) demoFile wordsRegexp 3 =
     Inr ([\<lparr>Check = ''demo.Very'', Severity = ''warning'', Span = [0, 18], Link_a = [],
             Message_a = ''found'', Description_a = [], Hide = False\<rparr>], demoFile)"
    unfolding occurrence_one_alert_over_limit [OF three pairs] locs
    by (simp add: demoOccurrence_def)
  have under: "checkOccurrence ''very very very big'' (demoOccurrence 4) demoFile wordsRegexp 4 =
     Inr ([], demoFile)"
    unfolding occurrence_one_alert_over_limit [OF four pairs] locs by simp
  from locs over under show ?thesis by (intro conjI)
qed

subsection \<open>C10: registration of Occurrence rules\<close>

text \<open>
  C10. An Occurrence rule definition whose \<open>max\<close> is less than 1, or whose
  token does not compile, is not registered: the registry is left as it was.
  So, when no rule of that name was registered before, no evaluation of
  \<open>lintText\<close> on any file and block calls a rule of that name, and no alert
  comes from it.
\<close>

theorem occurrence_not_registered:
  assumes "Max chkDef < 1 \<or> compile (Token chkDef) = None"
  shows "addOccurrenceCheck co compile mgr chkName chkDef = mgr \<and>
     (Name chkDef \<notin> fst ` set (AllChecks mgr) \<longrightarrow>
        (\<forall>co' l f blk f' calls.
           CheckManager l = addOccurrenceCheck co compile mgr chkName chkDef \<longrightarrow>
           lintText co' l f blk = Inr (f', calls) \<longrightarrow>
           Name chkDef \<notin> fst ` set calls))"
proof -
  from assms have same: "addOccurrenceCheck co compile mgr chkName chkDef = mgr"
    by (auto simp: addOccurrenceCheck_def split: option.splits)
  show ?thesis
  proof (intro conjI impI allI)
    show "addOccurrenceCheck co compile mgr chkName chkDef = mgr" by (rule same)
  next
    fix co' l f blk f' calls
    assume absent: "Name chkDef \<notin> fst ` set (AllChecks mgr)"
      and mgr: "CheckManager l = addOccurrenceCheck co compile mgr chkName chkDef"
      and run: "lintText co' l f blk = Inr (f', calls)"
    from lintText_names [OF run] have "fst ` set calls \<subseteq> fst ` set (AllChecks mgr)"
      by (simp add: mgr same)
    with absent show "Name chkDef \<notin> fst ` set calls" by blast
  qed
qed

text \<open>
  A rule with \<open>max = 0\<close> whose token compiles, and a rule with \<open>max = 2\<close>
  whose token does not: the empty registry stays empty, and \<open>lintText\<close> calls
  nothing.
\<close>

theorem occurrence_not_registered_witness:
  "Max (demoOccurrence 0) < 1 \<and>
   addOccurrenceCheck demoCore (\<lambda>pat. Some wordsRegexp) \<lparr>AllChecks = []\<rparr> ''demo.Very''
     (demoOccurrence 0) = \<lparr>AllChecks = []\<rparr> \<and>
   addOccurrenceCheck demoCore (\<lambda>pat. None) \<lparr>AllChecks = []\<rparr> ''demo.Very''
     (demoOccurrence 2) = \<lparr>AllChecks = []\<rparr> \<and>
   lintText demoCore
     (demoLinter (addOccurrenceCheck demoCore (\<lambda>pat. Some wordsRegexp) \<lparr>AllChecks = []\<rparr>
        ''demo.Very'' (demoOccurrence 0))) demoFile demoBlock = Inr (demoFile, []) \<and>
   Name (demoOccurrence 0) \<notin> fst ` set ([] :: (string \<times> string \<times> Alert list) list)"
proof -
  have small: "Max (demoOccurrence 0) < 1 \<or> (\<lambda>pat. Some wordsRegexp) (Token (demoOccurrence 0)) = None"
    by (simp add: demoOccurrence_def)
  have bad: "Max (demoOccurrence 2) < 1 \<or> (\<lambda>pat. None :: regexp option) (Token (demoOccurrence 2)) = None"
    by simp
  note a = occurrence_not_registered [OF small, of demoCore "\<lparr>AllChecks = []\<rparr>" "''demo.Very''",
      THEN conjunct1]
  note b = occurrence_not_registered [OF bad, of demoCore "\<lparr>AllChecks = []\<rparr>" "''demo.Very''",
      THEN conjunct1]
  show ?thesis
    by (simp add: a b) (simp add: demoOccurrence_def lintText_def demoLinter_def)
qed

subsection \<open>C2: which rules the dispatcher invokes\<close>



subsection \<open>C8: the text a rule is given\<close>

text \<open>
  C8. A rule with the \<open>code\<close> flag is evaluated against the block's raw text
  exactly when the file's normed extension is one of \<open>.md\<close>, \<open>.adoc\<close>,
  \<open>.rst\<close>; in every other case (no \<open>code\<close> flag, or another extension) it is
  evaluated against the block's cleaned text. This is the text of the call in
  the loop of \<open>lintText\<close>.
\<close>

theorem code_rules_get_raw_text:
  "lintText_txt f blk chk =
     (if Code_c chk \<and> NormedExt f \<in> {''.md'', ''.adoc'', ''.rst''} then Raw blk else Text blk) \<and>
   lintText_body co l blk (name, chk) (f, calls) =
     (if lintText_run co l f blk name chk then
        bindE (Rule chk
                 (if Code_c chk \<and> NormedExt f \<in> {''.md'', ''.adoc'', ''.rst''}
                  then Raw blk else Text blk) f)
          (\<lambda>res. case res of (alerts, f') \<Rightarrow>
             Inr (f', calls @
               [(name,
                 if Code_c chk \<and> NormedExt f \<in> {''.md'', ''.adoc'', ''.rst''}
                 then Raw blk else Text blk, alerts)]))
      else Inr (f, calls))"
  by (simp add: lintText_body_def lintText_txt_def StringInSlice_def)

text \<open>
  The same block in a Markdown file and in a text file, for a rule with the
  flag and for the same rule without it.
\<close>

theorem code_rules_get_raw_text_witness:
  "lintText_txt demoFile demoBlock demoCheck = ''some `raw` text'' \<and>
   lintText_txt (demoFile\<lparr>NormedExt := ''.txt''\<rparr>) demoBlock demoCheck = ''some text'' \<and>
   lintText_txt demoFile demoBlock (demoCheck\<lparr>Code_c := False\<rparr>) = ''some text'' \<and>
   lintText_body demoCore (demoLinter \<lparr>AllChecks = []\<rparr>) demoBlock (''demo.Rule'', demoCheck)
     (demoFile, []) = Inr (demoFile, [(''demo.Rule'', ''some `raw` text'', [])])"
  using code_rules_get_raw_text [of demoFile demoBlock demoCheck demoCore
      "demoLinter \<lparr>AllChecks = []\<rparr>" "''demo.Rule''" "[]"]
    code_rules_get_raw_text [of "demoFile\<lparr>NormedExt := ''.txt''\<rparr>" demoBlock demoCheck]
    code_rules_get_raw_text [of demoFile demoBlock "demoCheck\<lparr>Code_c := False\<rparr>"]
  by (simp add: demoFile_def demoBlock_def demoCheck_def bindE_Inr lintText_run_def demoCore_def
      demoLinter_def lintText_txt_def StringInSlice_def splitFirst_def)


subsection \<open>C9: files the walker leaves out\<close>

text \<open>
  C9. A walked file whose base name begins with \<open>.\<close> or with \<open>_\<close> is never
  scheduled for linting, whether or not its path matches the glob pattern: no
  worker is spawned for it, and every file result that \<open>lintFiles\<close> delivers
  is the result of an entry whose base name begins with neither.
\<close>

theorem hidden_files_not_scheduled:
  assumes "hasPrefix (fiName e) ''.'' \<or> hasPrefix (fiName e) ''_''"
  shows "e \<notin> set (fst (walk glob entries)) \<and>
     (\<forall>path \<in> set (fst (lintFiles glob entries)).
        \<exists>e' \<in> set entries. path = fp e' \<and>
          \<not> hasPrefix (fiName e') ''.'' \<and> \<not> hasPrefix (fiName e') ''_'')"
proof
  show "e \<notin> set (fst (walk glob entries))"
    using assms walk_spawned [of e glob entries] by (auto simp: HasAnyPrefix_ignore)
next
  show "\<forall>path \<in> set (fst (lintFiles glob entries)).
        \<exists>e' \<in> set entries. path = fp e' \<and>
          \<not> hasPrefix (fiName e') ''.'' \<and> \<not> hasPrefix (fiName e') ''_''"
  proof
    fix path
    assume "path \<in> set (fst (lintFiles glob entries))"
    then obtain e' where "e' \<in> set (fst (walk glob entries))" and "path = fp e'"
      by (auto simp: lintFiles_def split: prod.splits)
    with walk_spawned [of e' glob entries] show "\<exists>e' \<in> set entries. path = fp e' \<and>
          \<not> hasPrefix (fiName e') ''.'' \<and> \<not> hasPrefix (fiName e') ''_''"
      by (auto simp: HasAnyPrefix_ignore)
  qed
qed

text \<open>
  Three files that all match the glob pattern: only the one whose name begins
  with a letter gets a worker and a result.
\<close>

theorem hidden_files_not_scheduled_witness:
  "hasPrefix (fiName (demoEntry ''.hidden.md'')) ''.'' \<and>
   hasPrefix (fiName (demoEntry ''_draft.md'')) ''_'' \<and>
   demoEntry ''.hidden.md'' \<notin>
     set (fst (walk (\<lambda>path. True)
       [demoEntry ''.hidden.md'', demoEntry ''intro.md'', demoEntry ''_draft.md''])) \<and>
   demoEntry ''_draft.md'' \<notin>
     set (fst (walk (\<lambda>path. True)
       [demoEntry ''.hidden.md'', demoEntry ''intro.md'', demoEntry ''_draft.md''])) \<and>
   lintFiles (\<lambda>path. True)
     [demoEntry ''.hidden.md'', demoEntry ''intro.md'', demoEntry ''_draft.md''] =
     ([''docs/intro.md''], False)"
proof -
  have dot: "hasPrefix (fiName (demoEntry ''.hidden.md'')) ''.'' \<or>
      hasPrefix (fiName (demoEntry ''.hidden.md'')) ''_''"
    by (simp add: demoEntry_def)
  have under: "hasPrefix (fiName (demoEntry ''_draft.md'')) ''.'' \<or>
      hasPrefix (fiName (demoEntry ''_draft.md'')) ''_''"
    by (simp add: demoEntry_def)
  have result: "lintFiles (\<lambda>path. True)
     [demoEntry ''.hidden.md'', demoEntry ''intro.md'', demoEntry ''_draft.md''] =
     ([''docs/intro.md''], False)"
    by (simp add: lintFiles_def demoEntry_def HasAnyPrefix_def)
  have names: "hasPrefix (fiName (demoEntry ''.hidden.md'')) ''.''"
    "hasPrefix (fiName (demoEntry ''_draft.md'')) ''_''"
    by (simp_all add: demoEntry_def)
  from names result
    hidden_files_not_scheduled [OF dot, THEN conjunct1]
    hidden_files_not_scheduled [OF under, THEN conjunct1]
  show ?thesis by (intro conjI)
qed

subsection \<open>C3: the swap patterns the Substitution compiler keeps\<close>




subsection \<open>C4: Repetition on two words\<close>

text \<open>
  C4, as the claim states it, fails: with \<open>max = 1\<close> the text
  \<open>the the best\<close> yields no alert. The second \<open>the\<close> is the first hit, and
  an alert needs the count of hits to exceed \<open>max\<close>.
\<close>

theorem repetition_max_one_counterexample:
  "checkRepetition demoCore ''the the best'' (demoRepetition 1) demoFile wordsRegexp =
     Inr ([], demoFile)"
  by (simp add: checkRepetition_def wordsRegexp_def isWordChar_def repetitionStep_def bindE_def
      at_def slice_def TrimSpace_def isSpace_def ToLower_def toLowerChar_def Let_def
      demoRepetition_def)

text \<open>
  C4, amended. For a Repetition rule with tokens \<open>[\w+]\<close> and
  \<open>ignorecase = true\<close>: with \<open>max = 0\<close> the input \<open>the the best\<close> yields
  exactly one alert, spanning the two \<open>the\<close> tokens (offsets 0 to 7), and the
  input \<open>the best\<close> yields no alert; with \<open>max = 1\<close> neither input yields an
  alert.
\<close>

theorem repetition_two_words:
  "checkRepetition co ''the the best''
     \<lparr>Name = name, Level = level, Scope = scope, Link = link, Message = msg,
      Description = desc, Extends = ''repetition'', Code = code,
      Max_r = 0, Ignorecase_r = True, Tokens_r = [[CHR 0x5C] @ ''w+'']\<rparr> f wordsRegexp =
     Inr ([\<lparr>Check = name, Severity = level, Span = [0, 7], Link_a = link,
             Message_a = FormatMessage co msg [''the''],
             Description_a = FormatMessage co desc [''the''], Hide = False\<rparr>], f) \<and>
   checkRepetition co ''the best''
     \<lparr>Name = name, Level = level, Scope = scope, Link = link, Message = msg,
      Description = desc, Extends = ''repetition'', Code = code,
      Max_r = 0, Ignorecase_r = True, Tokens_r = [[CHR 0x5C] @ ''w+'']\<rparr> f wordsRegexp =
     Inr ([], f) \<and>
   checkRepetition co ''the the best''
     \<lparr>Name = name, Level = level, Scope = scope, Link = link, Message = msg,
      Description = desc, Extends = ''repetition'', Code = code,
      Max_r = 1, Ignorecase_r = True, Tokens_r = [[CHR 0x5C] @ ''w+'']\<rparr> f wordsRegexp =
     Inr ([], f) \<and>
   checkRepetition co ''the best''
     \<lparr>Name = name, Level = level, Scope = scope, Link = link, Message = msg,
      Description = desc, Extends = ''repetition'', Code = code,
      Max_r = 1, Ignorecase_r = True, Tokens_r = [[CHR 0x5C] @ ''w+'']\<rparr> f wordsRegexp =
     Inr ([], f)"
  by (simp add: checkRepetition_def wordsRegexp_def isWordChar_def repetitionStep_def bindE_def
      at_def slice_def TrimSpace_def isSpace_def ToLower_def toLowerChar_def Let_def)

theorem repetition_two_words_witness:
  "checkRepetition demoCore ''the the best'' (demoRepetition 0) demoFile wordsRegexp =
     Inr ([\<lparr>Check = ''demo.Repetition'', Severity = ''warning'', Span = [0, 7], Link_a = [],
             Message_a = ''found'', Description_a = [], Hide = False\<rparr>], demoFile)"
  using repetition_two_words [of demoCore "''demo.Repetition''" "''warning''" "''text.md''" "[]"
      "''found''" "[]" False demoFile, THEN conjunct1]
  by (simp add: demoRepetition_def demoCore_def)


subsection \<open>C5: Substitution\<close>




subsection \<open>C7: Conditional\<close>

lemma conditionalStore_all:
  "rangeE conditionalStore mats seqs =
     Inr (seqs @ map (\<lambda>mat. mat ! 1) (filter (\<lambda>mat. length mat > 1) mats))"
  by (rule rangeE_filter) (simp add: conditionalStore_def)

lemma conditionalAlert_inBounds:
  assumes "inBounds txt loc"
  shows "conditionalAlert co txt chk seqs loc alerts =
     Inr (if substr txt loc \<notin> set seqs \<and> substr txt loc \<notin> set (Exceptions chk)
          then alerts @ [\<lparr>Check = Name chk, Severity = Level chk, Span = loc, Link_a = Link chk,
                 Message_a = FormatMessage co (Message chk) [substr txt loc],
                 Description_a = FormatMessage co (Description chk) [substr txt loc],
                 Hide = False\<rparr>]
          else alerts)"
proof -
  from assms have l: "length loc = 2" by (simp add: inBounds_def)
  show ?thesis
    unfolding conditionalAlert_def at_pair [OF l, THEN conjunct1] at_pair [OF l, THEN conjunct2]
      slice_inBounds [OF assms] bindE_Inr makeAlert_inBounds [OF assms] StringInSlice_def
    by simp
qed

text \<open>
  C7. For every Conditional rule, block text and file, with the expressions
  \<open>[second, first]\<close> as \<open>addConditionalCheck\<close> passes them: the matcher
  first appends the first capture of every match of \<open>second\<close> to the file's
  sequence memory, then returns exactly one alert for each match of \<open>first\<close>
  whose text is neither in that memory (what earlier blocks of the file put
  there, and what this block just added) nor in the rule's exceptions, at the
  location of that match and in the order of the matches. The matches of
  \<open>first\<close> are locations in the text.
\<close>

theorem conditional_alerts:
  assumes "\<forall>loc \<in> set (FindAllStringIndex first txt). inBounds txt loc"
  shows "checkConditional co txt chk f [second, first] =
     (let seqs = Sequences f @ map (\<lambda>mat. mat ! 1)
                   (filter (\<lambda>mat. length mat > 1) (FindAllStringSubmatch second txt))
      in Inr (map (\<lambda>loc. \<lparr>Check = Name chk, Severity = Level chk, Span = loc,
                 Link_a = Link chk,
                 Message_a = FormatMessage co (Message chk) [substr txt loc],
                 Description_a = FormatMessage co (Description chk) [substr txt loc],
                 Hide = False\<rparr>)
               (filter (\<lambda>loc. substr txt loc \<notin> set seqs \<and> substr txt loc \<notin> set (Exceptions chk))
                  (FindAllStringIndex first txt)),
              f\<lparr>Sequences := seqs\<rparr>))"
proof -
  define seqs where "seqs = Sequences f @ map (\<lambda>mat. mat ! 1)
                   (filter (\<lambda>mat. length mat > 1) (FindAllStringSubmatch second txt))"
  have loop2: "rangeE (conditionalAlert co txt chk seqs) (FindAllStringIndex first txt) [] =
     Inr ([] @ map (\<lambda>loc. \<lparr>Check = Name chk, Severity = Level chk, Span = loc,
                 Link_a = Link chk,
                 Message_a = FormatMessage co (Message chk) [substr txt loc],
                 Description_a = FormatMessage co (Description chk) [substr txt loc],
                 Hide = False\<rparr>)
               (filter (\<lambda>loc. substr txt loc \<notin> set seqs \<and> substr txt loc \<notin> set (Exceptions chk))
                  (FindAllStringIndex first txt)))"
    by (rule rangeE_filter) (use assms in \<open>simp add: conditionalAlert_inBounds\<close>)
  have a0: "at [second, first] 0 = Inr second" and a1: "at [second, first] 1 = Inr first"
    by (simp_all add: at_def)
  have store: "rangeE conditionalStore (FindAllStringSubmatch second txt) (Sequences f) = Inr seqs"
    unfolding seqs_def by (rule conditionalStore_all)
  have "checkConditional co txt chk f [second, first] =
     Inr (map (\<lambda>loc. \<lparr>Check = Name chk, Severity = Level chk, Span = loc, Link_a = Link chk,
                 Message_a = FormatMessage co (Message chk) [substr txt loc],
                 Description_a = FormatMessage co (Description chk) [substr txt loc],
                 Hide = False\<rparr>)
               (filter (\<lambda>loc. substr txt loc \<notin> set seqs \<and> substr txt loc \<notin> set (Exceptions chk))
                  (FindAllStringIndex first txt)),
              f\<lparr>Sequences := seqs\<rparr>)"
    unfolding checkConditional_def a0 a1 bindE_Inr store loop2 by simp
  then show ?thesis unfolding seqs_def Let_def .
qed

text \<open>
  A text that defines \<open>WHO\<close> after its first use and uses \<open>FAO\<close>, an
  exception, and \<open>IMF\<close>: the memory receives \<open>WHO\<close>, and the one alert is
  on \<open>IMF\<close>; on a file whose memory already holds \<open>IMF\<close> there is none.
\<close>

theorem conditional_alerts_witness:
  "list_all (inBounds acronymText) (FindAllStringIndex antecedentRegexp acronymText) \<and>
   checkConditional demoCore acronymText demoConditional demoFile
     [consequentRegexp, antecedentRegexp] =
     Inr ([\<lparr>Check = ''demo.Acronyms'', Severity = ''warning'', Span = [69, 72], Link_a = [],
             Message_a = ''found'', Description_a = [], Hide = False\<rparr>],
          demoFile\<lparr>Sequences := [''WHO'']\<rparr>) \<and>
   checkConditional demoCore acronymText demoConditional (demoFile\<lparr>Sequences := [''IMF'']\<rparr>)
     [consequentRegexp, antecedentRegexp] =
     Inr ([], demoFile\<lparr>Sequences := [''IMF'', ''WHO'']\<rparr>)"
proof -
  have locs: "FindAllStringIndex antecedentRegexp acronymText = [[4, 7], [47, 50], [57, 60], [69, 72]]"
    by (simp add: antecedentRegexp_def)
  have mats: "FindAllStringSubmatch consequentRegexp acronymText =
      [[''World Health Organization (WHO)'', ''WHO'']]"
    by (simp add: consequentRegexp_def)
  have subs: "substr acronymText [4, 7] = ''WHO''" "substr acronymText [47, 50] = ''WHO''"
    "substr acronymText [57, 60] = ''FAO''" "substr acronymText [69, 72] = ''IMF''"
    by (simp_all add: substr_def acronymText_def)
  have len: "length acronymText = 80" by (simp add: acronymText_def)
  have bounds: "list_all (inBounds acronymText) (FindAllStringIndex antecedentRegexp acronymText)"
    by (simp add: locs inBounds_def len)
  then have all: "\<forall>loc \<in> set (FindAllStringIndex antecedentRegexp acronymText).
      inBounds acronymText loc"
    by (simp add: list_all_iff)
  have one: "checkConditional demoCore acronymText demoConditional demoFile
     [consequentRegexp, antecedentRegexp] =
     Inr ([\<lparr>Check = ''demo.Acronyms'', Severity = ''warning'', Span = [69, 72], Link_a = [],
             Message_a = ''found'', Description_a = [], Hide = False\<rparr>],
          demoFile\<lparr>Sequences := [''WHO'']\<rparr>)"
    unfolding conditional_alerts [OF all] locs mats
    by (simp add: subs demoConditional_def demoCore_def demoFile_def)
  have none: "checkConditional demoCore acronymText demoConditional
     (demoFile\<lparr>Sequences := [''IMF'']\<rparr>) [consequentRegexp, antecedentRegexp] =
     Inr ([], demoFile\<lparr>Sequences := [''IMF'', ''WHO'']\<rparr>)"
    unfolding conditional_alerts [OF all] locs mats
    by (simp add: subs demoConditional_def demoCore_def demoFile_def)
  from bounds one none show ?thesis by (intro conjI)
qed

subsection \<open>C1: Consistency\<close>

lemma consistencyStep_loc:
  assumes "consistencyStep r submat im st = Inr st'"
  shows "fst st' = last (fst st # groupLoc submat im)"
  using assms
  by (cases im; cases st)
     (auto simp: consistencyStep_def groupLoc_def bindE_eq_Inr at_def split: if_splits)

lemma consistencyStep_seqs:
  assumes "consistencyStep r submat im st = Inr st'"
  shows "snd st' = snd st @ groupName r im"
  using assms
  by (cases im; cases st)
     (auto simp: consistencyStep_def groupName_def bindE_eq_Inr at_def split: if_splits)

text \<open>
  C1, as the claim states it, fails: a file with the three blocks \<open>color\<close>,
  \<open>colour\<close>, \<open>color\<close> gets two alerts for the one pair, one in the second
  block and one more in the third. The sequence memory only grows, so every
  later block with a match finds both alternatives in it.
\<close>

theorem consistency_once_per_file_counterexample:
  "checkConsistency demoCore ''color'' demoConsistency demoFile spellingRegexp
     [''Spelling2'', ''Spelling3''] =
     Inr ([], demoFile\<lparr>Sequences := [''Spelling2'']\<rparr>) \<and>
   checkConsistency demoCore ''colour'' demoConsistency
     (demoFile\<lparr>Sequences := [''Spelling2'']\<rparr>) spellingRegexp [''Spelling2'', ''Spelling3''] =
     Inr ([\<lparr>Check = ''demo.Spelling'', Severity = ''warning'', Span = [0, 6], Link_a = [],
             Message_a = ''found'', Description_a = [], Hide = False\<rparr>],
          demoFile\<lparr>Sequences := [''Spelling2'', ''Spelling3'']\<rparr>) \<and>
   checkConsistency demoCore ''color'' demoConsistency
     (demoFile\<lparr>Sequences := [''Spelling2'', ''Spelling3'']\<rparr>) spellingRegexp
     [''Spelling2'', ''Spelling3''] =
     Inr ([\<lparr>Check = ''demo.Spelling'', Severity = ''warning'', Span = [0, 5], Link_a = [],
             Message_a = ''found'', Description_a = [], Hide = False\<rparr>],
          demoFile\<lparr>Sequences := [''Spelling2'', ''Spelling3'', ''Spelling2'']\<rparr>)"
  by (simp add: checkConsistency_def spellingRegexp_def indexed_def consistencyStep_def
      bindE_def at_def slice_def Let_def demoConsistency_def demoCore_def demoFile_def
      makeAlert_def AllStringsInSlice_def StringInSlice_def upt_rec)

text \<open>
  C1, amended. For every Consistency rule, every evaluation of an \<open>either\<close>
  pair on a block that completes returns at most one alert, so that a file gets
  at most one alert per pair for each block evaluated. The evaluation appends
  to the file's sequence memory the names of the capturing groups that took part
  in the block's matches; it returns an alert exactly when the block has a match
  and the memory then holds both alternatives of the pair, and the span of that
  alert is the location of the last capturing group that took part in a match
  of this block.
\<close>

theorem consistency_one_alert_per_block:
  assumes "checkConsistency co txt chk f r opts = Inr (alerts, f')"
  shows "Sequences f' = Sequences f @ groupNames r txt \<and>
         length alerts \<le> 1 \<and>
         (alerts \<noteq> [] \<longleftrightarrow>
            FindAllStringSubmatchIndex r txt \<noteq> [] \<and> AllStringsInSlice opts (Sequences f')) \<and>
         (\<forall>a \<in> set alerts. groupLocs r txt \<noteq> [] \<and> Span a = last (groupLocs r txt))"
proof -
  define matches where "matches = FindAllStringSubmatchIndex r txt"
  from assms obtain loc seqs where
    run: "rangeE (\<lambda>submat. rangeE (consistencyStep r submat) (indexed submat)) matches
            ([], Sequences f) = Inr (loc, seqs)"
    and fin: "(if matches \<noteq> [] \<and> AllStringsInSlice opts seqs then
            bindE (makeAlert co (chk\<lparr>Name := Extends chk\<rparr>) loc txt) (\<lambda>a.
              Inr ([a], f\<lparr>Sequences := seqs\<rparr>))
          else Inr ([], f\<lparr>Sequences := seqs\<rparr>)) = Inr (alerts, f')"
    by (auto simp: checkConsistency_def Let_def bindE_eq_Inr matches_def)
  have "snd (loc, seqs) = snd ([] :: int list, Sequences f) @
      concat (map (\<lambda>submat. concat (map (groupName r) (indexed submat))) matches)"
    by (rule rangeE_collect [where proj = snd, OF _ run])
       (rule rangeE_collect [where proj = snd], rule consistencyStep_seqs)
  then have seqs: "seqs = Sequences f @ groupNames r txt"
    by (simp add: groupNames_def matches_def)
  have "fst (loc, seqs) = last (fst ([] :: int list, Sequences f) #
      concat (map (\<lambda>submat. concat (map (groupLoc submat) (indexed submat))) matches))"
    by (rule rangeE_last [where sel = fst, OF _ run])
       (rule rangeE_last [where sel = fst], rule consistencyStep_loc)
  then have loc: "loc = last ([] # groupLocs r txt)"
    by (simp add: groupLocs_def matches_def)
  have f': "Sequences f' = seqs" using fin by (auto simp: bindE_eq_Inr split: if_splits)
  show ?thesis
  proof (cases "matches \<noteq> [] \<and> AllStringsInSlice opts seqs")
    case True
    with fin obtain a where a: "makeAlert co (chk\<lparr>Name := Extends chk\<rparr>) loc txt = Inr a"
      and al: "alerts = [a]" by (auto simp: bindE_eq_Inr)
    from makeAlert_Span [OF a] have sp: "Span a = loc" and ne: "loc \<noteq> []" by simp_all
    from loc ne have locs: "groupLocs r txt \<noteq> []" by auto
    with loc have "loc = last (groupLocs r txt)" by simp
    with True al sp locs f' seqs show ?thesis
      by (simp add: matches_def[symmetric])
  next
    case False
    with fin have "alerts = []" by auto
    with False f' seqs show ?thesis by (simp add: matches_def[symmetric])
  qed
qed

text \<open>
  The second block of the file above: the memory receives \<open>Spelling3\<close>, and
  the one alert is at the location of the group that matched \<open>colour\<close>.
\<close>

theorem consistency_one_alert_per_block_witness:
  "checkConsistency demoCore ''colour'' demoConsistency
     (demoFile\<lparr>Sequences := [''Spelling2'']\<rparr>) spellingRegexp [''Spelling2'', ''Spelling3''] =
     Inr ([\<lparr>Check = ''demo.Spelling'', Severity = ''warning'', Span = [0, 6], Link_a = [],
             Message_a = ''found'', Description_a = [], Hide = False\<rparr>],
          demoFile\<lparr>Sequences := [''Spelling2'', ''Spelling3'']\<rparr>) \<and>
   groupNames spellingRegexp ''colour'' = [''Spelling3''] \<and>
   groupLocs spellingRegexp ''colour'' = [[0, 6]]"
proof -
  have run: "checkConsistency demoCore ''colour'' demoConsistency
     (demoFile\<lparr>Sequences := [''Spelling2'']\<rparr>) spellingRegexp [''Spelling2'', ''Spelling3''] =
     Inr ([\<lparr>Check = ''demo.Spelling'', Severity = ''warning'', Span = [0, 6], Link_a = [],
             Message_a = ''found'', Description_a = [], Hide = False\<rparr>],
          demoFile\<lparr>Sequences := [''Spelling2'', ''Spelling3'']\<rparr>)"
    by (simp add: checkConsistency_def spellingRegexp_def indexed_def consistencyStep_def
      bindE_def at_def slice_def Let_def demoConsistency_def demoCore_def demoFile_def
      makeAlert_def AllStringsInSlice_def StringInSlice_def upt_rec)
  note facts = consistency_one_alert_per_block [OF run]
  from facts have names: "groupNames spellingRegexp ''colour'' = [''Spelling3'']"
    by (simp add: demoFile_def)
  from facts have "groupLocs spellingRegexp ''colour'' \<noteq> [] \<and>
      [0, 6] = last (groupLocs spellingRegexp ''colour'')"
    by simp
  moreover have "length (groupLocs spellingRegexp ''colour'') = 1"
    by (simp add: groupLocs_def spellingRegexp_def indexed_def groupLoc_def upt_rec)
  ultimately have locs: "groupLocs spellingRegexp ''colour'' = [[0, 6]]"
    by (cases "groupLocs spellingRegexp ''colour''") auto
  from run names locs show ?thesis by (intro conjI)
qed

end
